theory Spec2Isabelle
  imports Complex_Main "HOL-Library.Multiset"
begin

section \<open>Data model of boids2d.py\<close>

text \<open>
  The program is a 2D boids simulation. Every number the agents compute with is a Python
  float; the embedding idealises floats as mathematical reals, so rounding, overflow and
  underflow are outside the model. Identifiers are Python integers.

  A position and a heading are Python lists of exactly two floats, indexed by
  \<^verbatim>\<open>0\<close> and \<^verbatim>\<open>1\<close> (the loops are \<^verbatim>\<open>for i in range(2)\<close>). They are modelled as
  pairs, and the two indices as the two values of \<open>axis\<close>.
\<close>

type_synonym vec2 = "real \<times> real"

datatype axis = Ax0 | Ax1

fun vget :: "vec2 \<Rightarrow> axis \<Rightarrow> real" where
  "vget v Ax0 = fst v"
| "vget v Ax1 = snd v"

fun vset :: "vec2 \<Rightarrow> axis \<Rightarrow> real \<Rightarrow> vec2" where
  "vset v Ax0 x = (x, snd v)"
| "vset v Ax1 x = (fst v, x)"

text \<open>The instance attributes of class \<^verbatim>\<open>boid2D\<close>.\<close>

record boid2D =
  pos :: vec2
  idnum :: int
  heading :: vec2

text \<open>
  The module-level globals that every agent reads: \<^verbatim>\<open>senserange\<close>, \<^verbatim>\<open>separate\<close>,
  \<^verbatim>\<open>align\<close>, \<^verbatim>\<open>cohere\<close>, \<^verbatim>\<open>velocity\<close>, \<^verbatim>\<open>noise\<close>, \<^verbatim>\<open>bounce\<close> and \<^verbatim>\<open>root_sep\<close>.
  They are passed explicitly as one record.
\<close>

record params =
  senserange :: real
  separate :: real
  align :: real
  cohere :: real
  velocity :: real
  noise :: real
  bounce :: bool
  root_sep :: bool

text \<open>\<^verbatim>\<open>math.sqrt\<close> raises \<^verbatim>\<open>ValueError\<close> on a negative argument.\<close>

datatype error = ValueError

definition py_sqrt :: "real \<Rightarrow> error + real" where
  "py_sqrt x = (if x < 0 then Inl ValueError else Inr (sqrt x))"

section \<open>Neighbor discovery\<close>

text \<open>
  \<^verbatim>\<open>boid2D.findnear\<close> (lines 52-64): the rough axis-aligned check, then the Euclidean
  check, then the comparison of identifiers; matches are appended in list order. The
  argument of \<^verbatim>\<open>math.sqrt\<close> is a sum of two squares, so that call cannot raise.
\<close>

fun findnear :: "params \<Rightarrow> boid2D \<Rightarrow> boid2D list \<Rightarrow> boid2D list" where
  "findnear p self [] = []"
| "findnear p self (boid # boidarr) =
     (if abs (fst (pos boid) - fst (pos self)) < senserange p \<and>
         abs (snd (pos boid) - snd (pos self)) < senserange p
      then
        (if sqrt ((fst (pos boid) - fst (pos self))\<^sup>2 +
                  (snd (pos boid) - snd (pos self))\<^sup>2) < senserange p
         then
           (if idnum self \<noteq> idnum boid
            then boid # findnear p self boidarr
            else findnear p self boidarr)
         else findnear p self boidarr)
      else findnear p self boidarr)"

section \<open>Heading adjustment\<close>

text \<open>
  \<^verbatim>\<open>boid2D.adjustheading\<close> (lines 80-123). The three accumulators \<^verbatim>\<open>meanpos\<close>,
  \<^verbatim>\<open>meanhead\<close> and \<^verbatim>\<open>anticrowd\<close> are threaded through the two nested loops; a
  \<^verbatim>\<open>ValueError\<close> of \<^verbatim>\<open>math.sqrt\<close> leaves the loops at once, before the heading is
  written.
\<close>

type_synonym accs = "vec2 \<times> vec2 \<times> vec2"

fun accumulate_axis :: "params \<Rightarrow> boid2D \<Rightarrow> boid2D \<Rightarrow> axis \<Rightarrow> accs \<Rightarrow> error + accs" where
  "accumulate_axis p self boid i (meanpos, meanhead, anticrowd) =
     (let meanpos' = vset meanpos i (vget meanpos i + vget (pos boid) i);
          meanhead' = vset meanhead i (vget meanhead i + vget (heading boid) i)
      in
        if root_sep p then
          (if vget (pos boid) i < vget (pos self) i then
             (case py_sqrt (senserange p - abs (vget (pos self) i - vget (pos boid) i)) of
                Inl e \<Rightarrow> Inl e
              | Inr s \<Rightarrow> Inr (meanpos', meanhead', vset anticrowd i (vget anticrowd i - s)))
           else
             (case py_sqrt (senserange p - abs (vget (pos boid) i - vget (pos self) i)) of
                Inl e \<Rightarrow> Inl e
              | Inr s \<Rightarrow> Inr (meanpos', meanhead', vset anticrowd i (vget anticrowd i + s))))
        else
          Inr (meanpos', meanhead',
               vset anticrowd i
                 (vget anticrowd i -
                  (senserange p - abs (vget (pos self) i - vget (pos boid) i))\<^sup>2)))"

fun accumulate :: "params \<Rightarrow> boid2D \<Rightarrow> boid2D list \<Rightarrow> accs \<Rightarrow> error + accs" where
  "accumulate p self [] acc = Inr acc"
| "accumulate p self (boid # guideboids) acc =
     (case accumulate_axis p self boid Ax0 acc of
        Inl e \<Rightarrow> Inl e
      | Inr acc0 \<Rightarrow>
          (case accumulate_axis p self boid Ax1 acc0 of
             Inl e \<Rightarrow> Inl e
           | Inr acc1 \<Rightarrow> accumulate p self guideboids acc1))"

text \<open>Lines 104-107: the sums become means.\<close>

fun to_mean_axis :: "nat \<Rightarrow> axis \<Rightarrow> accs \<Rightarrow> accs" where
  "to_mean_axis n i (meanpos, meanhead, anticrowd) =
     (vset meanpos i (vget meanpos i / real n),
      vset meanhead i (vget meanhead i / real n),
      vset anticrowd i (vget anticrowd i / real n))"

definition to_means :: "nat \<Rightarrow> accs \<Rightarrow> accs" where
  "to_means n acc = to_mean_axis n Ax1 (to_mean_axis n Ax0 acc)"

text \<open>Lines 110-114: the heading is moved by the three rule contributions.\<close>

fun adjust_axis :: "params \<Rightarrow> accs \<Rightarrow> axis \<Rightarrow> boid2D \<Rightarrow> boid2D" where
  "adjust_axis p (meanpos, meanhead, anticrowd) i self =
     self\<lparr>heading := vset (heading self) i
       (vget (heading self) i
        - separate p * vget anticrowd i
        + cohere p * (vget meanpos i - vget (pos self) i)
        + align p * vget meanhead i)\<rparr>"

text \<open>Lines 82-114, everything before the normalization.\<close>

definition adjust_rules :: "params \<Rightarrow> boid2D \<Rightarrow> boid2D list \<Rightarrow> error + boid2D" where
  "adjust_rules p self guideboids =
     (if length guideboids = 0 then Inr self
      else
        (case accumulate p self guideboids ((0, 0), (0, 0), (0, 0)) of
           Inl e \<Rightarrow> Inl e
         | Inr acc \<Rightarrow>
             (let means = to_means (length guideboids) acc
              in Inr (adjust_axis p means Ax1 (adjust_axis p means Ax0 self)))))"

text \<open>Lines 116-123: the heading is rescaled to the set velocity.\<close>

definition magnitude :: "vec2 \<Rightarrow> real" where
  "magnitude h = sqrt ((fst h)\<^sup>2 + (snd h)\<^sup>2)"

definition normalize_heading :: "params \<Rightarrow> boid2D \<Rightarrow> boid2D" where
  "normalize_heading p self =
     (if magnitude (heading self) = 0 then self\<lparr>heading := (0, 0)\<rparr>
      else self\<lparr>heading :=
             (fst (heading self) * velocity p / magnitude (heading self),
              snd (heading self) * velocity p / magnitude (heading self))\<rparr>)"

definition adjustheading :: "params \<Rightarrow> boid2D \<Rightarrow> boid2D list \<Rightarrow> error + boid2D" where
  "adjustheading p self guideboids =
     (case adjust_rules p self guideboids of
        Inl e \<Rightarrow> Inl e
      | Inr self' \<Rightarrow> Inr (normalize_heading p self'))"

section \<open>Motion integration\<close>

text \<open>
  \<^verbatim>\<open>random.random()\<close> is modelled by an explicit generator state: the sequence of values
  the calls return, and the number of calls made so far.
\<close>

type_synonym rng = "(nat \<Rightarrow> real) \<times> nat"

definition py_random :: "rng \<Rightarrow> real \<times> rng" where
  "py_random g = (fst g (snd g), (fst g, Suc (snd g)))"

definition constant_draws :: "real \<Rightarrow> rng" where
  "constant_draws c = ((\<lambda>k. c), 0)"

text \<open>
  One round of the loop of \<^verbatim>\<open>boid2D.movetick\<close> (lines 127-142): the position update,
  the optional noise on the heading, then the boundary policy.
\<close>

definition add_noise :: "params \<Rightarrow> bool \<Rightarrow> axis \<Rightarrow> boid2D \<times> rng \<Rightarrow> boid2D \<times> rng" where
  "add_noise p addnoise i s =
     (if addnoise then
        (let (r, g') = py_random (snd s)
         in ((fst s)\<lparr>heading := vset (heading (fst s)) i
                (vget (heading (fst s)) i + r * noise p - noise p / 2)\<rparr>, g'))
      else s)"

definition boundary :: "params \<Rightarrow> real \<Rightarrow> axis \<Rightarrow> boid2D \<Rightarrow> boid2D" where
  "boundary p bound i self =
     (if bounce p then
        (if vget (pos self) i > bound \<or> vget (pos self) i < 0
         then self\<lparr>heading := vset (heading self) i (- vget (heading self) i)\<rparr>
         else self)
      else
        (if vget (pos self) i > bound
         then self\<lparr>pos := vset (pos self) i (vget (pos self) i - bound)\<rparr>
         else if vget (pos self) i < 0
         then self\<lparr>pos := vset (pos self) i (bound - vget (pos self) i)\<rparr>
         else self))"

definition movetick_axis :: "params \<Rightarrow> real \<Rightarrow> bool \<Rightarrow> axis \<Rightarrow> boid2D \<times> rng \<Rightarrow> boid2D \<times> rng" where
  "movetick_axis p bound addnoise i s =
     (let self1 = (fst s)\<lparr>pos := vset (pos (fst s)) i
                     (vget (pos (fst s)) i + vget (heading (fst s)) i)\<rparr>;
          s2 = add_noise p addnoise i (self1, snd s)
      in (boundary p bound i (fst s2), snd s2))"

text \<open>The parameter \<^verbatim>\<open>multiplier\<close> is declared by the source and read nowhere in it.\<close>

definition movetick :: "params \<Rightarrow> real \<Rightarrow> real \<Rightarrow> bool \<Rightarrow> boid2D \<times> rng \<Rightarrow> boid2D \<times> rng" where
  "movetick p bound multiplier addnoise s =
     movetick_axis p bound addnoise Ax1 (movetick_axis p bound addnoise Ax0 s)"

section \<open>The tick\<close>

text \<open>
  \<^verbatim>\<open>boidrender.update\<close> (lines 288-309) without the drawing calls. The agents are
  objects that the first loop mutates one after the other, so when an agent is
  processed the array holds the agents before it with their new headings (\<open>ready\<close>) and
  the agent itself and those after it with their old ones (\<open>todo\<close>).
\<close>

fun pass1 :: "params \<Rightarrow> boid2D list \<Rightarrow> boid2D list \<Rightarrow> error + boid2D list" where
  "pass1 p ready [] = Inr ready"
| "pass1 p ready (boid # todo) =
     (case adjustheading p boid (findnear p boid (ready @ boid # todo)) of
        Inl e \<Rightarrow> Inl e
      | Inr boid' \<Rightarrow> pass1 p (ready @ [boid']) todo)"

fun pass2 :: "params \<Rightarrow> real \<Rightarrow> boid2D list \<Rightarrow> rng \<Rightarrow> boid2D list \<times> rng" where
  "pass2 p bounds [] g = ([], g)"
| "pass2 p bounds (boid # boidarr) g =
     (let (boid', g') = movetick p bounds 0.5 True (boid, g);
          (rest, g'') = pass2 p bounds boidarr g'
      in (boid' # rest, g''))"

definition update :: "params \<Rightarrow> real \<Rightarrow> boid2D list \<Rightarrow> rng \<Rightarrow> error + (boid2D list \<times> rng)" where
  "update p bounds boidarr g =
     (case pass1 p [] boidarr of
        Inl e \<Rightarrow> Inl e
      | Inr boidarr' \<Rightarrow> Inr (pass2 p bounds boidarr' g))"

section \<open>Parameter setters\<close>

text \<open>
  The slider callbacks of \<^verbatim>\<open>boidrender\<close> (lines 258-285). Each receives the slider's
  value and stores \<^verbatim>\<open>float(newval)\<close> in the global; the argument of the model is that
  float.
\<close>

definition setcohere :: "real \<Rightarrow> params \<Rightarrow> params" where
  "setcohere newval p = p\<lparr>cohere := newval\<rparr>"

definition setseparate :: "real \<Rightarrow> params \<Rightarrow> params" where
  "setseparate newval p = p\<lparr>separate := newval\<rparr>"

definition setalign :: "real \<Rightarrow> params \<Rightarrow> params" where
  "setalign newval p = p\<lparr>align := newval\<rparr>"

definition setnoise :: "real \<Rightarrow> params \<Rightarrow> params" where
  "setnoise newval p = p\<lparr>noise := newval\<rparr>"

definition setvelocity :: "real \<Rightarrow> params \<Rightarrow> params" where
  "setvelocity newval p = p\<lparr>velocity := newval\<rparr>"

definition setrange :: "real \<Rightarrow> params \<Rightarrow> params" where
  "setrange newval p = p\<lparr>senserange := newval\<rparr>"

text \<open>
  The globals as \<^verbatim>\<open>boidrender.__init__\<close> leaves them: the values of
  \<^verbatim>\<open>defaultparams\<close> passed to the agents' constructor, which also sets \<^verbatim>\<open>noise = 1\<close>,
  \<^verbatim>\<open>bounce = False\<close> and \<^verbatim>\<open>root_sep = True\<close>.
\<close>

definition defaultparams :: params where
  "defaultparams =
     \<lparr>senserange = 50, separate = 4.5, align = 2, cohere = 0.7, velocity = 5,
      noise = 1, bounce = False, root_sep = True\<rparr>"

section \<open>Notions of the specification\<close>

text \<open>The Euclidean distance between two agents, as the specification uses the word.\<close>

definition distance :: "boid2D \<Rightarrow> boid2D \<Rightarrow> real" where
  "distance a b = sqrt ((fst (pos a) - fst (pos b))\<^sup>2 + (snd (pos a) - snd (pos b))\<^sup>2)"

section \<open>Concrete agents\<close>

definition boid_a :: boid2D where
  "boid_a = \<lparr>pos = (0, 0), idnum = 0, heading = (1, 0)\<rparr>"

definition boid_b :: boid2D where
  "boid_b = \<lparr>pos = (3, 4), idnum = 1, heading = (-1, 0)\<rparr>"

text \<open>The Python index of an axis.\<close>

fun axis_index :: "axis \<Rightarrow> nat" where
  "axis_index Ax0 = 0"
| "axis_index Ax1 = 1"

definition boid_edge :: boid2D where
  "boid_edge = \<lparr>pos = (0, 500), idnum = 0, heading = (-5, 0)\<rparr>"

definition boid_out :: boid2D where
  "boid_out = \<lparr>pos = (998, 500), idnum = 0, heading = (5, 0)\<rparr>"

section \<open>The rule contributions in closed form\<close>

text \<open>
  The means of the specification: the arithmetic mean of the neighbors' positions and of
  their headings on an axis, and the separation signal of the root mode, averaged over
  the neighbor count.
\<close>

definition mean_position :: "boid2D list \<Rightarrow> axis \<Rightarrow> real" where
  "mean_position guideboids i =
     (\<Sum>b\<leftarrow>guideboids. vget (pos b) i) / real (length guideboids)"

definition mean_heading :: "boid2D list \<Rightarrow> axis \<Rightarrow> real" where
  "mean_heading guideboids i =
     (\<Sum>b\<leftarrow>guideboids. vget (heading b) i) / real (length guideboids)"

definition anti_crowd_root :: "params \<Rightarrow> boid2D \<Rightarrow> boid2D list \<Rightarrow> axis \<Rightarrow> real" where
  "anti_crowd_root p self guideboids i =
     (\<Sum>b\<leftarrow>guideboids.
        if vget (pos b) i < vget (pos self) i
        then - sqrt (senserange p - abs (vget (pos b) i - vget (pos self) i))
        else sqrt (senserange p - abs (vget (pos b) i - vget (pos self) i)))
     / real (length guideboids)"

text \<open>
  What one neighbor adds to \<^verbatim>\<open>anticrowd\<close> on one axis in either separation mode, and
  the condition under which no \<^verbatim>\<open>math.sqrt\<close> call of that neighbor's round raises.
\<close>

definition crowd_term :: "params \<Rightarrow> boid2D \<Rightarrow> boid2D \<Rightarrow> axis \<Rightarrow> real" where
  "crowd_term p self boid i =
     (if root_sep p then
        (if vget (pos boid) i < vget (pos self) i
         then - sqrt (senserange p - abs (vget (pos self) i - vget (pos boid) i))
         else sqrt (senserange p - abs (vget (pos boid) i - vget (pos self) i)))
      else - (senserange p - abs (vget (pos self) i - vget (pos boid) i))\<^sup>2)"

definition sqrt_defined :: "params \<Rightarrow> boid2D \<Rightarrow> boid2D \<Rightarrow> bool" where
  "sqrt_defined p self boid =
     (if root_sep p
      then abs (vget (pos boid) Ax0 - vget (pos self) Ax0) \<le> senserange p \<and>
           abs (vget (pos boid) Ax1 - vget (pos self) Ax1) \<le> senserange p
      else True)"

definition vsum :: "(boid2D \<Rightarrow> axis \<Rightarrow> real) \<Rightarrow> boid2D list \<Rightarrow> vec2" where
  "vsum f bs = ((\<Sum>b\<leftarrow>bs. f b Ax0), (\<Sum>b\<leftarrow>bs. f b Ax1))"

definition vadd :: "vec2 \<Rightarrow> vec2 \<Rightarrow> vec2" where
  "vadd u v = (fst u + fst v, snd u + snd v)"

definition rule_heading :: "params \<Rightarrow> boid2D \<Rightarrow> boid2D list \<Rightarrow> axis \<Rightarrow> real" where
  "rule_heading p self guideboids i =
     vget (heading self) i
     - separate p * ((\<Sum>b\<leftarrow>guideboids. crowd_term p self b i) / real (length guideboids))
     + cohere p * (mean_position guideboids i - vget (pos self) i)
     + align p * mean_heading guideboids i"

text \<open>Parameters and a neighbor for which the square roots are rational.\<close>

definition params_unit :: params where
  "params_unit =
     \<lparr>senserange = 4, separate = 1, align = 1, cohere = 1, velocity = 10,
      noise = 1, bounce = False, root_sep = True\<rparr>"

definition boid_c :: boid2D where
  "boid_c = \<lparr>pos = (3, 0), idnum = 2, heading = (0, 6)\<rparr>"

section \<open>Notions for the iteration order\<close>

text \<open>What neighbor discovery reads of an agent: its identifier and its position.\<close>

definition key :: "boid2D \<Rightarrow> int \<times> vec2" where
  "key b = (idnum b, pos b)"

text \<open>
  The agent as pass 1 leaves it when the array is \<open>boidarr\<close> at the moment the agent is
  processed, and the agent as \<open>movetick\<close> leaves it without noise.
\<close>

definition adjusted :: "params \<Rightarrow> boid2D list \<Rightarrow> boid2D \<Rightarrow> boid2D" where
  "adjusted p boidarr boid =
     (case adjustheading p boid (findnear p boid boidarr) of
        Inl e \<Rightarrow> boid
      | Inr boid' \<Rightarrow> boid')"

definition moved :: "params \<Rightarrow> real \<Rightarrow> boid2D \<Rightarrow> boid2D" where
  "moved p bounds boid = fst (movetick p bounds 0.5 False (boid, constant_draws 0))"

text \<open>
  Slider settings with only the alignment rule and no noise, a second agent heading
  against \<open>boid_a\<close>, and the default settings with alignment and noise set to zero.
\<close>

definition params_align :: params where
  "params_align =
     \<lparr>senserange = 50, separate = 0, align = 1, cohere = 0, velocity = 1,
      noise = 0, bounce = False, root_sep = True\<rparr>"

definition boid_d :: boid2D where
  "boid_d = \<lparr>pos = (1, 0), idnum = 1, heading = (-1, 0)\<rparr>"

definition params_quiet :: params where
  "params_quiet =
     \<lparr>senserange = 50, separate = 4.5, align = 0, cohere = 0.7, velocity = 5,
      noise = 0, bounce = False, root_sep = True\<rparr>"

section \<open>Neighbor discovery is the exact distance filter\<close>

lemma abs_le_distance:
  "abs (fst (pos b) - fst (pos a)) \<le> distance a b"
  "abs (snd (pos b) - snd (pos a)) \<le> distance a b"
  unfolding distance_def
  by (simp_all add: power2_commute [of "fst (pos a)"] power2_commute [of "snd (pos a)"])

lemma distance_code:
  "sqrt ((fst (pos b) - fst (pos a))\<^sup>2 + (snd (pos b) - snd (pos a))\<^sup>2) = distance a b"
  by (simp add: distance_def power2_commute)

lemma findnear_filter:
  "findnear p a boidarr =
     filter (\<lambda>b. idnum b \<noteq> idnum a \<and> distance a b < senserange p) boidarr"
proof (induction boidarr)
  case Nil
  show ?case by simp
next
  case (Cons b boidarr)
  have "abs (fst (pos b) - fst (pos a)) < senserange p \<and>
        abs (snd (pos b) - snd (pos a)) < senserange p"
    if "distance a b < senserange p"
    using that abs_le_distance [of b a] by linarith
  then show ?case
    using Cons.IH by (auto simp: distance_code)
qed

text \<open>
  Claim C2. For every querying agent, agent list and sense range, \<open>findnear\<close> returns
  exactly the agents of the list (in list order) whose identifier differs from the
  querying agent's and whose Euclidean distance to it is strictly below the sense range.
  So the rough axis-aligned check removes nothing that the exact check would keep, the
  querying agent is never returned, and an agent at distance exactly the sense range is
  not returned.
\<close>

theorem findnear_exact:
  "findnear p a boidarr =
     filter (\<lambda>b. idnum b \<noteq> idnum a \<and> distance a b < senserange p) boidarr
   \<and> a \<notin> set (findnear p a boidarr)
   \<and> (\<forall>b. distance a b = senserange p \<longrightarrow> b \<notin> set (findnear p a boidarr))"
  by (simp add: findnear_filter)

theorem findnear_exact_witness:
  "distance boid_a boid_b = senserange (setrange 5 defaultparams)
   \<and> findnear (setrange 5 defaultparams) boid_a [boid_a, boid_b] = []
   \<and> findnear defaultparams boid_a [boid_a, boid_b] = [boid_b]"
proof -
  have d: "distance boid_a boid_b = 5"
  proof -
    have "distance boid_a boid_b = sqrt (5\<^sup>2)"
      by (simp add: distance_def boid_a_def boid_b_def)
    then show ?thesis by simp
  qed
  have r: "senserange (setrange 5 defaultparams) = 5"
    by (simp add: setrange_def)
  have s: "senserange defaultparams = 50"
    by (simp add: defaultparams_def)
  have i: "idnum boid_b \<noteq> idnum boid_a"
    by (simp add: boid_a_def boid_b_def)
  from findnear_exact [of "setrange 5 defaultparams" boid_a "[boid_a, boid_b]"]
    findnear_exact [of defaultparams boid_a "[boid_a, boid_b]"]
  show ?thesis
    by (simp add: d r s i)
qed

section \<open>Motion integration, axis by axis\<close>

lemma vget_vset: "vget (vset v i x) j = (if i = j then x else vget v j)"
  by (cases i; cases j) simp_all

lemma movetick_axis_pos:
  "vget (pos (fst (movetick_axis p bound addnoise i s))) j =
     (if i = j then
        (let raw = vget (pos (fst s)) i + vget (heading (fst s)) i
         in if bounce p then raw
            else if raw > bound then raw - bound
            else if raw < 0 then bound - raw
            else raw)
      else vget (pos (fst s)) j)"
  by (simp add: movetick_axis_def boundary_def add_noise_def Let_def vget_vset
      split: prod.splits)

lemma movetick_axis_heading:
  "vget (heading (fst (movetick_axis p bound addnoise i s))) j =
     (if i = j then
        (let raw = vget (pos (fst s)) i + vget (heading (fst s)) i;
             h = vget (heading (fst s)) i +
                 (if addnoise then fst (snd s) (snd (snd s)) * noise p - noise p / 2 else 0)
         in if bounce p \<and> (raw > bound \<or> raw < 0) then - h else h)
      else vget (heading (fst s)) j)"
  by (simp add: movetick_axis_def boundary_def add_noise_def py_random_def Let_def vget_vset
      split: prod.splits)

lemma movetick_axis_rng:
  "snd (movetick_axis p bound addnoise i s) =
     (fst (snd s), if addnoise then Suc (snd (snd s)) else snd (snd s))"
  by (simp add: movetick_axis_def boundary_def add_noise_def py_random_def Let_def
      split: prod.splits)

lemma movetick_axis_idnum:
  "idnum (fst (movetick_axis p bound addnoise i s)) = idnum (fst s)"
  by (simp add: movetick_axis_def boundary_def add_noise_def py_random_def Let_def
      split: prod.splits)

lemma movetick_pos:
  "vget (pos (fst (movetick p bound m addnoise s))) i =
     (let raw = vget (pos (fst s)) i + vget (heading (fst s)) i
      in if bounce p then raw
         else if raw > bound then raw - bound
         else if raw < 0 then bound - raw
         else raw)"
  by (cases i; simp only: movetick_def movetick_axis_pos movetick_axis_heading)
    (simp_all add: Let_def)

lemma movetick_heading:
  "vget (heading (fst (movetick p bound m addnoise s))) i =
     (let raw = vget (pos (fst s)) i + vget (heading (fst s)) i;
          h = vget (heading (fst s)) i +
              (if addnoise
               then fst (snd s) (snd (snd s) + axis_index i) * noise p - noise p / 2
               else 0)
      in if bounce p \<and> (raw > bound \<or> raw < 0) then - h else h)"
  by (cases i;
      simp only: movetick_def movetick_axis_pos movetick_axis_heading movetick_axis_rng)
    (auto simp: Let_def)

text \<open>
  Claim C10. The multiplier argument of \<open>movetick\<close> has no effect: any two multipliers
  give the same agent and the same generator state, so the tick's second pass, which
  passes 0.5, does what any other multiplier would do. The position written on an axis is
  the old position plus the whole heading component, possibly moved by the boundary
  policy (minus the bound, or the bound minus it), never a fraction of the heading.
\<close>

theorem movetick_ignores_multiplier:
  "movetick p bound m1 addnoise s = movetick p bound m2 addnoise s
   \<and> pass2 p bounds (boid # boidarr) g =
       (let (boid', g') = movetick p bounds m True (boid, g);
            (rest, g'') = pass2 p bounds boidarr g'
        in (boid' # rest, g''))
   \<and> (let raw = vget (pos (fst s)) i + vget (heading (fst s)) i;
           new = vget (pos (fst (movetick p bound m1 addnoise s))) i
       in new = raw \<or> new = raw - bound \<or> new = bound - raw)"
proof -
  have a: "movetick p bound m1 addnoise s = movetick p bound m2 addnoise s"
    by (simp add: movetick_def)
  have b: "pass2 p bounds (boid # boidarr) g =
       (let (boid', g') = movetick p bounds m True (boid, g);
            (rest, g'') = pass2 p bounds boidarr g'
        in (boid' # rest, g''))"
    by (simp add: movetick_def)
  have c: "(let raw = vget (pos (fst s)) i + vget (heading (fst s)) i;
           new = vget (pos (fst (movetick p bound m1 addnoise s))) i
       in new = raw \<or> new = raw - bound \<or> new = bound - raw)"
    by (simp only: movetick_pos Let_def) simp
  from a b c show ?thesis by blast
qed

text \<open>
  Claim C7. In bounce mode, for every agent, axis and bound, \<open>movetick\<close> leaves the
  position on the axis at the raw sum of old position and old heading component, with no
  clamping; and when that sum is above the bound or below zero, the heading component
  after the call is the negation of the heading component as it stands at the boundary
  check: the old component, plus the noise term when noise is enabled.
\<close>

theorem bounce_reflects:
  assumes "bounce p"
  shows "vget (pos (fst (movetick p bound m addnoise (self, g)))) i =
           vget (pos self) i + vget (heading self) i
       \<and> (bound < vget (pos self) i + vget (heading self) i \<or>
          vget (pos self) i + vget (heading self) i < 0 \<longrightarrow>
          vget (heading (fst (movetick p bound m addnoise (self, g)))) i =
            - (vget (heading self) i +
               (if addnoise
                then fst g (snd g + axis_index i) * noise p - noise p / 2
                else 0)))"
  using assms by (simp add: movetick_pos movetick_heading Let_def)

theorem bounce_reflects_witness:
  "bounce (defaultparams\<lparr>bounce := True\<rparr>)
   \<and> pos (fst (movetick (defaultparams\<lparr>bounce := True\<rparr>) 1000 0.5 True
                (boid_out, constant_draws 0.5))) = (1003, 500)
   \<and> heading (fst (movetick (defaultparams\<lparr>bounce := True\<rparr>) 1000 0.5 True
                (boid_out, constant_draws 0.5))) = (-5, 0)"
proof -
  let ?p = "defaultparams\<lparr>bounce := True\<rparr>"
  let ?r = "fst (movetick ?p 1000 0.5 True (boid_out, constant_draws 0.5))"
  have b: "bounce ?p" by simp
  have n: "noise ?p = 1" by (simp add: defaultparams_def)
  have 0: "vget (pos ?r) Ax0 = 1003 \<and> vget (heading ?r) Ax0 = -5"
    using bounce_reflects [OF b, of 1000 "0.5" True boid_out "constant_draws 0.5" Ax0]
    by (simp add: boid_out_def constant_draws_def n)
  have 1: "vget (pos ?r) Ax1 = 500"
    using bounce_reflects [OF b, of 1000 "0.5" True boid_out "constant_draws 0.5" Ax1]
    by (simp add: boid_out_def)
  have 2: "vget (heading ?r) Ax1 = 0"
    by (simp only: movetick_heading) (simp add: boid_out_def constant_draws_def n)
  have "pos ?r = (vget (pos ?r) Ax0, vget (pos ?r) Ax1)"
       "heading ?r = (vget (heading ?r) Ax0, vget (heading ?r) Ax1)"
    by simp_all
  with 0 1 2 b show ?thesis by metis
qed

text \<open>
  In wrap mode the branch for a position above the bound brings it back into the
  interval from zero to the bound.
\<close>

lemma wrap_contained_from_above:
  assumes "\<not> bounce p" "0 < bound"
    and "0 \<le> vget (pos self) i + vget (heading self) i"
    and "vget (pos self) i + vget (heading self) i \<le> 2 * bound"
  shows "0 \<le> vget (pos (fst (movetick p bound m addnoise (self, g)))) i
       \<and> vget (pos (fst (movetick p bound m addnoise (self, g)))) i \<le> bound"
  using assms by (simp add: movetick_pos Let_def)

text \<open>
  Claim C6. Wrap-mode containment fails below zero. With the default parameters (wrap
  mode), bound 1000, an agent at (0, 500) with heading (-5, 0) and a noise term of zero,
  the raw position -5 lies within [-1000, 2000], and the branch for a negative position
  writes \<open>bound - position\<close>, that is 1005, which is outside [0, 1000].
\<close>

theorem wrap_below_zero_leaves_bounds:
  "pos (fst (movetick defaultparams 1000 0.5 True (boid_edge, constant_draws 0.5))) =
     (1005, 500)
   \<and> heading (fst (movetick defaultparams 1000 0.5 True (boid_edge, constant_draws 0.5))) =
     (-5, 0)"
  by (simp add: movetick_def movetick_axis_def boundary_def add_noise_def py_random_def
      constant_draws_def defaultparams_def boid_edge_def Let_def)

section \<open>Parameter setters\<close>

text \<open>
  Claim C9, as amended. The setters check no domain: each stores the value it is given in
  its parameter, whatever its sign, and there is no error to report.
\<close>

theorem setters_store_unchecked:
  "senserange (setrange newval p) = newval \<and> velocity (setvelocity newval p) = newval
   \<and> noise (setnoise newval p) = newval \<and> cohere (setcohere newval p) = newval
   \<and> separate (setseparate newval p) = newval \<and> align (setalign newval p) = newval"
  by (simp add: setrange_def setvelocity_def setnoise_def setcohere_def setseparate_def
      setalign_def)

text \<open>
  Claim C9 as stated fails: a negative sense range and a negative velocity are accepted
  and take effect.
\<close>

theorem setters_accept_negative:
  "senserange (setrange (-1) defaultparams) = -1
   \<and> velocity (setvelocity (-1) defaultparams) = -1"
  by (simp add: setrange_def setvelocity_def)

section \<open>Heading adjustment: the accumulators\<close>

lemma vsum_Nil: "vsum f [] = (0, 0)"
  by (simp add: vsum_def)

lemma vadd_vsum_Cons: "vadd u (vsum f (b # bs)) = vadd (vadd u (f b Ax0, f b Ax1)) (vsum f bs)"
  by (simp add: vsum_def vadd_def)

lemma vadd_zero: "vadd u (0, 0) = u" "vadd (0, 0) u = u"
  by (simp_all add: vadd_def)

lemma accumulate_axes_ok:
  assumes "sqrt_defined p self boid"
  shows "(case accumulate_axis p self boid Ax0 (mp, mh, ac) of
            Inl e \<Rightarrow> Inl e
          | Inr acc0 \<Rightarrow> accumulate_axis p self boid Ax1 acc0) =
         Inr (vadd mp (vget (pos boid) Ax0, vget (pos boid) Ax1),
              vadd mh (vget (heading boid) Ax0, vget (heading boid) Ax1),
              vadd ac (crowd_term p self boid Ax0, crowd_term p self boid Ax1))"
  using assms
  by (auto simp: sqrt_defined_def py_sqrt_def crowd_term_def vadd_def Let_def abs_minus_commute
      split: if_splits)

lemma accumulate_axes_fail:
  assumes "\<not> sqrt_defined p self boid"
  shows "(case accumulate_axis p self boid Ax0 (mp, mh, ac) of
            Inl e \<Rightarrow> Inl e
          | Inr acc0 \<Rightarrow> accumulate_axis p self boid Ax1 acc0) = Inl ValueError"
  using assms
  by (auto simp: sqrt_defined_def py_sqrt_def Let_def abs_minus_commute
      split: if_splits)

lemma accumulate_step:
  "accumulate p self (boid # guideboids) acc =
     (case (case accumulate_axis p self boid Ax0 acc of
              Inl e \<Rightarrow> Inl e
            | Inr acc0 \<Rightarrow> accumulate_axis p self boid Ax1 acc0) of
        Inl e \<Rightarrow> Inl e
      | Inr acc1 \<Rightarrow> accumulate p self guideboids acc1)"
  by (simp split: sum.splits)

lemma accumulate_sums:
  "accumulate p self guideboids (mp, mh, ac) =
     (if list_all (sqrt_defined p self) guideboids
      then Inr (vadd mp (vsum (\<lambda>b. vget (pos b)) guideboids),
                vadd mh (vsum (\<lambda>b. vget (heading b)) guideboids),
                vadd ac (vsum (crowd_term p self) guideboids))
      else Inl ValueError)"
proof (induction guideboids arbitrary: mp mh ac)
  case Nil
  show ?case by (simp add: vsum_Nil vadd_zero)
next
  case (Cons boid guideboids)
  show ?case
  proof (cases "sqrt_defined p self boid")
    case True
    show ?thesis
      unfolding accumulate_step accumulate_axes_ok [OF True]
      by (simp add: Cons.IH True vadd_vsum_Cons del: accumulate.simps)
  next
    case False
    show ?thesis
      unfolding accumulate_step accumulate_axes_fail [OF False]
      by (simp add: False)
  qed
qed

lemma adjust_rules_closed:
  assumes "guideboids \<noteq> []"
  shows "adjust_rules p self guideboids =
     (if list_all (sqrt_defined p self) guideboids
      then Inr (self\<lparr>heading :=
                  (rule_heading p self guideboids Ax0, rule_heading p self guideboids Ax1)\<rparr>)
      else Inl ValueError)"
  using assms
  by (simp add: adjust_rules_def accumulate_sums to_means_def vadd_zero vsum_def
      rule_heading_def mean_position_def mean_heading_def)

lemma crowd_term_root:
  "root_sep p \<Longrightarrow> (\<Sum>b\<leftarrow>guideboids. crowd_term p self b i) / real (length guideboids) =
     anti_crowd_root p self guideboids i"
  by (simp add: anti_crowd_root_def crowd_term_def abs_minus_commute cong: if_cong)

lemma in_reach_sqrt_defined:
  assumes "\<forall>b\<in>set guideboids. \<forall>i. abs (vget (pos b) i - vget (pos self) i) \<le> senserange p"
  shows "list_all (sqrt_defined p self) guideboids"
  using assms by (auto simp: list_all_iff sqrt_defined_def simp del: vget.simps)

text \<open>
  Claim C3. For every agent and every non-empty neighbor list whose members lie within
  the sense range on each axis (every list \<open>findnear\<close> returns is such a list), root-mode
  heading adjustment does not raise, leaves position and identifier alone, and sets the
  heading on each axis, before the normalization, to the old heading minus the separation
  weight times the averaged root-mode separation signal, plus the cohesion weight times
  the mean neighbor position relative to the agent, plus the alignment weight times the
  mean neighbor heading. The normalization is then applied to exactly that agent.
\<close>
theorem adjustheading_rule_formula:
  assumes "guideboids \<noteq> []" and "root_sep p"
    and "\<forall>b\<in>set guideboids. \<forall>i. abs (vget (pos b) i - vget (pos self) i) \<le> senserange p"
  shows "\<exists>self'. adjust_rules p self guideboids = Inr self'
     \<and> adjustheading p self guideboids = Inr (normalize_heading p self')
     \<and> pos self' = pos self \<and> idnum self' = idnum self
     \<and> (\<forall>i. vget (heading self') i =
            vget (heading self) i
            - separate p * anti_crowd_root p self guideboids i
            + cohere p * (mean_position guideboids i - vget (pos self) i)
            + align p * mean_heading guideboids i)"
proof -
  let ?self' = "self\<lparr>heading :=
      (rule_heading p self guideboids Ax0, rule_heading p self guideboids Ax1)\<rparr>"
  have r: "adjust_rules p self guideboids = Inr ?self'"
    using adjust_rules_closed [OF assms(1)] in_reach_sqrt_defined [OF assms(3)] by simp
  have "vget (heading ?self') i =
            vget (heading self) i
            - separate p * anti_crowd_root p self guideboids i
            + cohere p * (mean_position guideboids i - vget (pos self) i)
            + align p * mean_heading guideboids i" for i
    by (cases i) (simp_all add: rule_heading_def crowd_term_root [OF assms(2)])
  with r show ?thesis
    by (simp add: adjustheading_def)
qed

lemma sqrt_4: "sqrt 4 = 2"
  using real_sqrt_abs [of 2] by simp

theorem adjustheading_rule_formula_witness:
  "[boid_c] \<noteq> [] \<and> root_sep params_unit
   \<and> adjust_rules params_unit boid_a [boid_c] = Inr (boid_a\<lparr>heading := (3, 4)\<rparr>)"
proof -
  have reach: "\<forall>b\<in>set [boid_c]. \<forall>i. abs (vget (pos b) i - vget (pos boid_a) i) \<le> senserange params_unit"
  proof (intro ballI allI)
    fix b i assume "b \<in> set [boid_c]"
    then show "abs (vget (pos b) i - vget (pos boid_a) i) \<le> senserange params_unit"
      by (cases i) (simp_all add: boid_a_def boid_c_def params_unit_def)
  qed
  have ne: "[boid_c] \<noteq> []" by simp
  have rt: "root_sep params_unit" by (simp add: params_unit_def)
  obtain self' where s: "adjust_rules params_unit boid_a [boid_c] = Inr self'"
    and p: "pos self' = pos boid_a" and n: "idnum self' = idnum boid_a"
    and h: "\<And>i. vget (heading self') i =
            vget (heading boid_a) i
            - separate params_unit * anti_crowd_root params_unit boid_a [boid_c] i
            + cohere params_unit * (mean_position [boid_c] i - vget (pos boid_a) i)
            + align params_unit * mean_heading [boid_c] i"
    using adjustheading_rule_formula [OF ne rt reach] by blast
  have h0: "fst (heading self') = 3"
    using h [of Ax0]
    by (simp add: anti_crowd_root_def mean_position_def mean_heading_def boid_a_def boid_c_def
        params_unit_def)
  have h1: "snd (heading self') = 4"
    using h [of Ax1]
    by (simp add: anti_crowd_root_def mean_position_def mean_heading_def boid_a_def boid_c_def
        params_unit_def sqrt_4)
  have "self' = boid_a\<lparr>heading := (3, 4)\<rparr>"
    using p n h0 h1 by (cases self') (simp add: boid_a_def prod_eq_iff)
  with s ne rt show ?thesis by simp
qed

section \<open>Normalization\<close>

lemma magnitude_nonneg: "0 \<le> magnitude h"
  by (simp add: magnitude_def)

lemma magnitude_zero: "magnitude h = 0 \<longleftrightarrow> h = (0, 0)"
  by (cases h) (simp add: magnitude_def real_sqrt_eq_zero_cancel_iff sum_power2_eq_zero_iff)

lemma magnitude_scale: "magnitude (a * c / m, b * c / m) = abs (c / m) * magnitude (a, b)"
proof -
  have "(a * c / m)\<^sup>2 + (b * c / m)\<^sup>2 = (c / m)\<^sup>2 * (a\<^sup>2 + b\<^sup>2)"
    by (simp add: power_mult_distrib power_divide algebra_simps add_divide_distrib)
  then show ?thesis
    by (simp add: magnitude_def real_sqrt_mult)
qed

lemma normalize_magnitude:
  assumes "magnitude (heading self) \<noteq> 0"
  shows "magnitude (heading (normalize_heading p self)) = abs (velocity p)"
proof -
  have m: "0 < magnitude (heading self)"
    using assms magnitude_nonneg [of "heading self"] by linarith
  have "magnitude (heading (normalize_heading p self)) =
        abs (velocity p / magnitude (heading self)) * magnitude (fst (heading self), snd (heading self))"
    using assms by (simp add: normalize_heading_def magnitude_scale)
  also have "\<dots> = abs (velocity p)"
    using m by (simp add: abs_divide)
  finally show ?thesis .
qed

text \<open>
  Claim C4, as amended. For every agent and neighbor list for which the rule
  contributions are computed, and for every velocity parameter, \<open>adjustheading\<close>
  returns; the heading is the zero vector when the heading after the rule contributions
  has magnitude zero, and otherwise its magnitude is the absolute value of the velocity
  parameter, which is the velocity parameter itself whenever that is not negative.
\<close>

theorem speed_clamp:
  assumes "adjust_rules p self guideboids = Inr self1"
  shows "\<exists>self'. adjustheading p self guideboids = Inr self'
     \<and> (magnitude (heading self1) = 0 \<longrightarrow> heading self' = (0, 0))
     \<and> (magnitude (heading self1) \<noteq> 0 \<longrightarrow> magnitude (heading self') = abs (velocity p))
     \<and> (magnitude (heading self1) \<noteq> 0 \<and> 0 \<le> velocity p \<longrightarrow>
          magnitude (heading self') = velocity p)"
  using assms normalize_magnitude [of self1 p]
  by (simp add: adjustheading_def normalize_heading_def)

lemma sqrt_25: "sqrt 25 = 5"
  using real_sqrt_abs [of 5] by simp

lemma sqrt_100: "sqrt 100 = 10"
  using real_sqrt_abs [of 10] by simp

lemma adjust_rules_a_c:
  "senserange p = 4 \<Longrightarrow> separate p = 1 \<Longrightarrow> align p = 1 \<Longrightarrow> cohere p = 1 \<Longrightarrow> root_sep p \<Longrightarrow>
     adjust_rules p boid_a [boid_c] = Inr (boid_a\<lparr>heading := (3, 4)\<rparr>)"
  by (simp add: adjust_rules_closed list_all_iff sqrt_defined_def rule_heading_def
      crowd_term_def mean_position_def mean_heading_def boid_a_def boid_c_def sqrt_4)

theorem speed_clamp_witness:
  "0 \<le> velocity params_unit
   \<and> adjust_rules params_unit boid_a [boid_c] = Inr (boid_a\<lparr>heading := (3, 4)\<rparr>)
   \<and> magnitude (3, 4) \<noteq> 0
   \<and> adjustheading params_unit boid_a [boid_c] = Inr (boid_a\<lparr>heading := (6, 8)\<rparr>)
   \<and> magnitude (6, 8) = velocity params_unit"
proof -
  have v: "0 \<le> velocity params_unit" by (simp add: params_unit_def)
  have r: "adjust_rules params_unit boid_a [boid_c] = Inr (boid_a\<lparr>heading := (3, 4)\<rparr>)"
    by (rule adjust_rules_a_c) (simp_all add: params_unit_def)
  have a: "adjustheading params_unit boid_a [boid_c] = Inr (boid_a\<lparr>heading := (6, 8)\<rparr>)"
    unfolding adjustheading_def r
    by (simp add: normalize_heading_def magnitude_def sqrt_25 params_unit_def)
  have m: "magnitude (3, 4) \<noteq> 0"
    by (simp add: magnitude_def sqrt_25)
  from speed_clamp [OF r] a m v
  have "magnitude (6, 8) = velocity params_unit" by auto
  with v r a m show ?thesis by simp
qed

text \<open>
  Claim C4 as stated fails for a negative velocity parameter: with velocity -10 the
  heading (3, 4) that the rule contributions give is rescaled to (-6, -8), whose
  magnitude is 10 and not the velocity parameter.
\<close>

theorem speed_clamp_negative_velocity:
  "velocity (setvelocity (-10) params_unit) = -10
   \<and> adjust_rules (setvelocity (-10) params_unit) boid_a [boid_c] =
       Inr (boid_a\<lparr>heading := (3, 4)\<rparr>)
   \<and> magnitude (3, 4) = 5
   \<and> adjustheading (setvelocity (-10) params_unit) boid_a [boid_c] =
       Inr (boid_a\<lparr>heading := (-6, -8)\<rparr>)
   \<and> magnitude (-6, -8) = 10"
proof -
  let ?p = "setvelocity (-10) params_unit"
  have v: "velocity ?p = -10" by (simp add: setvelocity_def)
  have r: "adjust_rules ?p boid_a [boid_c] = Inr (boid_a\<lparr>heading := (3, 4)\<rparr>)"
    by (rule adjust_rules_a_c) (simp_all add: params_unit_def setvelocity_def)
  have m: "magnitude (3, 4) = 5" "magnitude (-6, -8) = 10"
    by (simp_all add: magnitude_def sqrt_25 sqrt_100)
  have a: "adjustheading ?p boid_a [boid_c] = Inr (boid_a\<lparr>heading := (-6, -8)\<rparr>)"
    unfolding adjustheading_def r
    by (simp add: normalize_heading_def m v)
  from v r m a show ?thesis by simp
qed

lemma adjustheading_Nil: "adjustheading p self [] = Inr (normalize_heading p self)"
  by (simp add: adjustheading_def adjust_rules_def)

text \<open>
  Claim C5, as amended. With an empty neighbor list \<open>adjustheading\<close> returns the agent
  with its heading multiplied by a scalar that has the sign of the velocity parameter:
  not negative, so that the direction is kept, when the velocity parameter is not
  negative, and not positive, so that the direction is reversed, when the velocity
  parameter is negative. The call returns the agent unchanged when the heading's
  magnitude already equals the velocity parameter.
\<close>

theorem no_neighbors_keeps_direction:
  "(\<exists>c. adjustheading p self [] =
          Inr (self\<lparr>heading := (c * fst (heading self), c * snd (heading self))\<rparr>)
        \<and> (0 \<le> velocity p \<longrightarrow> 0 \<le> c) \<and> (velocity p \<le> 0 \<longrightarrow> c \<le> 0))
   \<and> (magnitude (heading self) = velocity p \<longrightarrow> adjustheading p self [] = Inr self)"
proof (intro conjI impI)
  show "\<exists>c. adjustheading p self [] =
          Inr (self\<lparr>heading := (c * fst (heading self), c * snd (heading self))\<rparr>)
        \<and> (0 \<le> velocity p \<longrightarrow> 0 \<le> c) \<and> (velocity p \<le> 0 \<longrightarrow> c \<le> 0)"
  proof (cases "magnitude (heading self) = 0")
    case True
    then have "adjustheading p self [] =
        Inr (self\<lparr>heading := (0 * fst (heading self), 0 * snd (heading self))\<rparr>)"
      by (simp add: adjustheading_Nil normalize_heading_def)
    then show ?thesis by (intro exI [of _ 0]) simp
  next
    case False
    let ?c = "velocity p / magnitude (heading self)"
    have m: "0 < magnitude (heading self)"
      using False magnitude_nonneg [of "heading self"] by linarith
    have "0 \<le> velocity p \<longrightarrow> 0 \<le> ?c" "velocity p \<le> 0 \<longrightarrow> ?c \<le> 0"
      using m by (simp_all add: divide_nonpos_pos)
    moreover have "adjustheading p self [] =
        Inr (self\<lparr>heading := (?c * fst (heading self), ?c * snd (heading self))\<rparr>)"
      using False by (simp add: adjustheading_Nil normalize_heading_def)
    ultimately show ?thesis by blast
  qed
next
  assume m: "magnitude (heading self) = velocity p"
  show "adjustheading p self [] = Inr self"
  proof (cases "magnitude (heading self) = 0")
    case True
    then have "heading self = (0, 0)" by (simp add: magnitude_zero)
    then have "self\<lparr>heading := (0, 0)\<rparr> = self" by (cases self) simp
    with True show ?thesis by (simp add: adjustheading_Nil normalize_heading_def)
  next
    case False
    have "self\<lparr>heading := (fst (heading self), snd (heading self))\<rparr> = self"
      by (cases self) simp
    with False m show ?thesis by (simp add: adjustheading_Nil normalize_heading_def)
  qed
qed

theorem no_neighbors_keeps_direction_witness:
  "0 \<le> velocity params_unit
   \<and> (\<exists>c\<ge>0. adjustheading params_unit boid_a [] =
          Inr (boid_a\<lparr>heading := (c * fst (heading boid_a), c * snd (heading boid_a))\<rparr>))
   \<and> adjustheading params_unit boid_a [] = Inr (boid_a\<lparr>heading := (10, 0)\<rparr>)
   \<and> magnitude (heading boid_a) = velocity (setvelocity 1 params_unit)
   \<and> adjustheading (setvelocity 1 params_unit) boid_a [] = Inr boid_a"
proof -
  have v: "0 \<le> velocity params_unit" by (simp add: params_unit_def)
  have m: "magnitude (heading boid_a) = velocity (setvelocity 1 params_unit)"
    by (simp add: magnitude_def boid_a_def setvelocity_def)
  have a: "adjustheading params_unit boid_a [] = Inr (boid_a\<lparr>heading := (10, 0)\<rparr>)"
    by (simp add: adjustheading_Nil normalize_heading_def magnitude_def boid_a_def
        params_unit_def)
  from no_neighbors_keeps_direction [of params_unit boid_a] v
  have c: "\<exists>c\<ge>0. adjustheading params_unit boid_a [] =
          Inr (boid_a\<lparr>heading := (c * fst (heading boid_a), c * snd (heading boid_a))\<rparr>)"
    by blast
  from no_neighbors_keeps_direction [of "setvelocity 1 params_unit" boid_a] m
  have "adjustheading (setvelocity 1 params_unit) boid_a [] = Inr boid_a" by blast
  with v c m a show ?thesis by simp
qed

text \<open>
  Claim C5 as stated fails for a negative velocity parameter: with velocity -1 and no
  neighbors the heading (1, 0) becomes (-1, 0), the opposite direction.
\<close>

theorem no_neighbors_reverses_direction:
  "velocity (setvelocity (-1) params_unit) = -1
   \<and> heading boid_a = (1, 0)
   \<and> adjustheading (setvelocity (-1) params_unit) boid_a [] =
       Inr (boid_a\<lparr>heading := (-1, 0)\<rparr>)"
  by (simp add: adjustheading_Nil normalize_heading_def magnitude_def boid_a_def
      setvelocity_def)

section \<open>The square roots of heading adjustment on a neighbor list\<close>

lemma findnear_within:
  assumes "b \<in> set (findnear p a boidarr)"
  shows "abs (vget (pos b) i - vget (pos a) i) < senserange p"
proof -
  have "distance a b < senserange p"
    using assms by (simp add: findnear_filter)
  then show ?thesis
    using abs_le_distance [of b a] by (cases i) simp_all
qed

lemma findnear_sqrt_defined: "list_all (sqrt_defined p a) (findnear p a boidarr)"
  unfolding list_all_iff sqrt_defined_def
  using findnear_within [of _ p a boidarr]
  by (auto intro: less_imp_le simp del: vget.simps)

lemma adjustheading_findnear:
  "\<exists>a'. adjustheading p a (findnear p a boidarr) = Inr a'"
proof (cases "findnear p a boidarr = []")
  case True
  then show ?thesis by (simp add: adjustheading_Nil)
next
  case False
  then show ?thesis
    by (simp add: adjustheading_def adjust_rules_closed findnear_sqrt_defined)
qed

text \<open>
  Claim C8. For every agent that \<open>findnear\<close> returns, under the same sense range, and
  for every axis, the radicand of either square-root call of root-mode heading adjustment
  is non-negative, so the call returns the square root and not the error; and heading
  adjustment applied to the list \<open>findnear\<close> returns never raises.
\<close>

theorem radicand_nonnegative:
  "(\<forall>b\<in>set (findnear p a boidarr). \<forall>i.
       0 \<le> senserange p - abs (vget (pos a) i - vget (pos b) i)
     \<and> py_sqrt (senserange p - abs (vget (pos a) i - vget (pos b) i)) =
         Inr (sqrt (senserange p - abs (vget (pos a) i - vget (pos b) i)))
     \<and> py_sqrt (senserange p - abs (vget (pos b) i - vget (pos a) i)) =
         Inr (sqrt (senserange p - abs (vget (pos b) i - vget (pos a) i))))
   \<and> (\<exists>a'. adjustheading p a (findnear p a boidarr) = Inr a')"
proof (intro conjI ballI allI)
  fix b i
  assume "b \<in> set (findnear p a boidarr)"
  from findnear_within [OF this, of i]
  have r: "0 \<le> senserange p - abs (vget (pos b) i - vget (pos a) i)"
    by simp
  then show "0 \<le> senserange p - abs (vget (pos a) i - vget (pos b) i)"
    by (simp add: abs_minus_commute)
  from r show "py_sqrt (senserange p - abs (vget (pos a) i - vget (pos b) i)) =
         Inr (sqrt (senserange p - abs (vget (pos a) i - vget (pos b) i)))"
    by (simp add: py_sqrt_def abs_minus_commute)
  from r show "py_sqrt (senserange p - abs (vget (pos b) i - vget (pos a) i)) =
         Inr (sqrt (senserange p - abs (vget (pos b) i - vget (pos a) i)))"
    by (simp add: py_sqrt_def)
next
  show "\<exists>a'. adjustheading p a (findnear p a boidarr) = Inr a'"
    by (rule adjustheading_findnear)
qed

theorem radicand_nonnegative_witness:
  "findnear params_unit boid_a [boid_a, boid_b, boid_c] = [boid_c]
   \<and> 0 \<le> senserange params_unit - abs (vget (pos boid_a) Ax0 - vget (pos boid_c) Ax0)
   \<and> py_sqrt (senserange params_unit - abs (vget (pos boid_a) Ax0 - vget (pos boid_c) Ax0)) =
       Inr 1"
proof -
  have d: "distance boid_a boid_c = 3"
    using real_sqrt_abs [of 3] by (simp add: distance_def boid_a_def boid_c_def)
  have e: "distance boid_a boid_b = 5"
  proof -
    have "distance boid_a boid_b = sqrt (5\<^sup>2)"
      by (simp add: distance_def boid_a_def boid_b_def)
    then show ?thesis by simp
  qed
  have f: "findnear params_unit boid_a [boid_a, boid_b, boid_c] = [boid_c]"
    by (simp add: findnear_filter d e) (simp add: params_unit_def boid_a_def boid_c_def)
  then have "boid_c \<in> set (findnear params_unit boid_a [boid_a, boid_b, boid_c])"
    by simp
  with radicand_nonnegative [of params_unit boid_a "[boid_a, boid_b, boid_c]"]
  have "0 \<le> senserange params_unit - abs (vget (pos boid_a) Ax0 - vget (pos boid_c) Ax0)
     \<and> py_sqrt (senserange params_unit - abs (vget (pos boid_a) Ax0 - vget (pos boid_c) Ax0)) =
         Inr (sqrt (senserange params_unit - abs (vget (pos boid_a) Ax0 - vget (pos boid_c) Ax0)))"
    by blast
  moreover have "senserange params_unit - abs (vget (pos boid_a) Ax0 - vget (pos boid_c) Ax0) = 1"
    by (simp add: params_unit_def boid_a_def boid_c_def)
  ultimately show ?thesis using f by simp
qed

section \<open>The tick and the iteration order\<close>

lemma normalize_frame:
  "pos (normalize_heading p b) = pos b" "idnum (normalize_heading p b) = idnum b"
  by (simp_all add: normalize_heading_def)

lemma adjust_rules_frame:
  assumes "adjust_rules p b guideboids = Inr b'"
  shows "pos b' = pos b \<and> idnum b' = idnum b"
proof (cases "guideboids = []")
  case True
  with assms show ?thesis by (simp add: adjust_rules_def)
next
  case False
  from assms show ?thesis
    unfolding adjust_rules_closed [OF False] by (auto split: if_splits)
qed

lemma adjustheading_frame:
  assumes "adjustheading p b guideboids = Inr b'"
  shows "pos b' = pos b \<and> idnum b' = idnum b"
  using assms adjust_rules_frame [of p b guideboids]
  by (auto simp: adjustheading_def normalize_frame split: sum.splits)

lemma adjustheading_key:
  "adjustheading p b guideboids = Inr b' \<Longrightarrow> key b' = key b"
  by (simp add: key_def adjustheading_frame)

lemma adjusted_eq:
  "adjustheading p b (findnear p b boidarr) = Inr (adjusted p boidarr b)"
  using adjustheading_findnear [of p b boidarr] by (auto simp: adjusted_def)

lemma adjusted_key: "key (adjusted p boidarr b) = key b"
  using adjusted_eq [of p b boidarr] by (rule adjustheading_key)

lemma pass1_Cons:
  "pass1 p ready (boid # todo) =
     pass1 p (ready @ [adjusted p (ready @ boid # todo) boid]) todo"
  by (simp add: adjusted_eq)

lemma pass1_total: "\<exists>res. pass1 p ready todo = Inr res \<and> map key res = map key (ready @ todo)"
proof (induction todo arbitrary: ready)
  case Nil
  show ?case by simp
next
  case (Cons boid todo)
  from Cons.IH [of "ready @ [adjusted p (ready @ boid # todo) boid]"]
  show ?case
    unfolding pass1_Cons by (simp add: adjusted_key)
qed

text \<open>What heading adjustment reads of its neighbor list when the alignment weight is zero.\<close>

lemma sum_list_pos_mset:
  assumes "mset (map pos xs) = mset (map pos ys)"
  shows "(\<Sum>b\<leftarrow>xs. (f :: vec2 \<Rightarrow> real) (pos b)) = (\<Sum>b\<leftarrow>ys. f (pos b))"
proof -
  have "(\<Sum>b\<leftarrow>xs. f (pos b)) = sum_mset (image_mset f (mset (map pos xs)))"
    by (simp add: sum_mset_sum_list [symmetric] multiset.map_comp comp_def)
  also have "\<dots> = sum_mset (image_mset f (mset (map pos ys)))"
    by (simp only: assms)
  also have "\<dots> = (\<Sum>b\<leftarrow>ys. f (pos b))"
    by (simp add: sum_mset_sum_list [symmetric] multiset.map_comp comp_def)
  finally show ?thesis .
qed

lemma crowd_term_pos:
  "crowd_term p self b i = crowd_term p self \<lparr>pos = pos b, idnum = 0, heading = (0, 0)\<rparr> i"
  by (simp add: crowd_term_def)

lemma sqrt_defined_pos:
  "sqrt_defined p self b = sqrt_defined p self \<lparr>pos = pos b, idnum = 0, heading = (0, 0)\<rparr>"
  by (simp add: sqrt_defined_def)

lemma list_all_pos_mset:
  assumes "mset (map pos xs) = mset (map pos (ys :: boid2D list))"
  shows "list_all (\<lambda>b. Q (pos b)) (xs :: boid2D list) = list_all (\<lambda>b. Q (pos b)) ys"
proof -
  have s: "set (map pos xs) = set (map pos ys)"
    using assms by (metis set_mset_mset)
  have z: "list_all (\<lambda>b. Q (pos b)) zs = (\<forall>x\<in>set (map pos zs). Q x)"
    for zs :: "boid2D list"
    by (simp add: list_all_iff)
  show ?thesis
    unfolding z [of xs] z [of ys] s by (rule refl)
qed

lemma rule_heading_mset:
  assumes "align p = 0" and "mset (map pos xs) = mset (map pos ys)"
  shows "rule_heading p self xs i = rule_heading p self ys i"
proof -
  have l: "length xs = length ys"
    using assms(2) by (metis length_map size_mset)
  have c: "(\<Sum>b\<leftarrow>xs. crowd_term p self b i) = (\<Sum>b\<leftarrow>ys. crowd_term p self b i)"
    using sum_list_pos_mset [OF assms(2),
        of "\<lambda>x. crowd_term p self \<lparr>pos = x, idnum = 0, heading = (0, 0)\<rparr> i"]
    by (simp add: crowd_term_pos [symmetric])
  have m: "(\<Sum>b\<leftarrow>xs. vget (pos b) i) = (\<Sum>b\<leftarrow>ys. vget (pos b) i)"
    using sum_list_pos_mset [OF assms(2), of "\<lambda>x. vget x i"] .
  show ?thesis
    by (simp add: rule_heading_def mean_position_def l c m assms(1))
qed

lemma adjustheading_mset:
  assumes "align p = 0" and "mset (map pos xs) = mset (map pos ys)"
  shows "adjustheading p self xs = adjustheading p self ys"
proof (cases "xs = []")
  case True
  with assms(2) have "ys = []" by (metis mset_zero_iff map_is_Nil_conv mset.simps(1) list.simps(8))
  with True show ?thesis by simp
next
  case False
  with assms(2) have ys: "ys \<noteq> []" by (metis mset_zero_iff map_is_Nil_conv mset.simps(1) list.simps(8))
  have d: "list_all (sqrt_defined p self) xs = list_all (sqrt_defined p self) ys"
    using list_all_pos_mset [OF assms(2),
        of "\<lambda>x. sqrt_defined p self \<lparr>pos = x, idnum = 0, heading = (0, 0)\<rparr>"]
    by (simp add: sqrt_defined_pos [symmetric])
  show ?thesis
    unfolding adjustheading_def adjust_rules_closed [OF False] adjust_rules_closed [OF ys]
    by (simp add: d rule_heading_mset [OF assms])
qed

text \<open>Neighbor discovery reads identifiers and positions only.\<close>

lemma findnear_key:
  "map key (findnear p a boidarr) =
     filter (\<lambda>k. fst k \<noteq> idnum a \<and>
                sqrt ((fst (pos a) - fst (snd k))\<^sup>2 + (snd (pos a) - snd (snd k))\<^sup>2) < senserange p)
       (map key boidarr)"
  by (simp add: findnear_filter filter_map comp_def key_def distance_def)

lemma findnear_mset:
  assumes "mset (map key xs) = mset (map key ys)"
  shows "mset (map pos (findnear p a xs)) = mset (map pos (findnear p a ys))"
proof -
  have "mset (map key (findnear p a xs)) = mset (map key (findnear p a ys))"
    unfolding findnear_key mset_filter by (simp only: assms)
  then have "image_mset snd (mset (map key (findnear p a xs))) =
             image_mset snd (mset (map key (findnear p a ys)))"
    by simp
  moreover have "snd \<circ> key = pos"
    by (auto simp: key_def)
  ultimately show ?thesis
    by (simp add: multiset.map_comp)
qed

lemma adjusted_mset:
  assumes "align p = 0" and "mset (map key xs) = mset (map key ys)"
  shows "adjusted p xs b = adjusted p ys b"
  unfolding adjusted_def
  by (simp only: adjustheading_mset [OF assms(1) findnear_mset [OF assms(2)]])

lemma pass1_sync:
  assumes "align p = 0"
  shows "pass1 p ready todo = Inr (ready @ map (adjusted p (ready @ todo)) todo)"
proof (induction todo arbitrary: ready)
  case Nil
  show ?case by simp
next
  case (Cons boid todo)
  let ?b' = "adjusted p (ready @ boid # todo) boid"
  have "mset (map key ((ready @ [?b']) @ todo)) = mset (map key (ready @ boid # todo))"
    by (simp add: adjusted_key)
  then have "adjusted p ((ready @ [?b']) @ todo) = adjusted p (ready @ boid # todo)"
    using adjusted_mset [OF assms] by blast
  then show ?case
    unfolding pass1_Cons Cons.IH by simp
qed

lemma pass1_permuted:
  assumes "align p = 0" and "mset boidarr' = mset boidarr"
  shows "\<exists>res res'. pass1 p [] boidarr = Inr res \<and> pass1 p [] boidarr' = Inr res'
     \<and> mset res' = mset res"
proof -
  have "mset (map key boidarr') = mset (map key boidarr)"
    using assms(2) by simp
  then have a: "adjusted p boidarr' = adjusted p boidarr"
    using adjusted_mset [OF assms(1)] by blast
  have "mset (map (adjusted p boidarr) boidarr') = mset (map (adjusted p boidarr) boidarr)"
    using assms(2) by simp
  then show ?thesis
    using pass1_sync [OF assms(1), of "[]"] a by simp
qed

lemma vec2_eqI: "(\<And>i. vget u i = vget v i) \<Longrightarrow> u = v"
  using vget.simps by (metis prod_eq_iff)

lemma movetick_idnum: "idnum (fst (movetick p bound m addnoise s)) = idnum (fst s)"
  by (simp add: movetick_def movetick_axis_idnum)

lemma movetick_rng:
  "snd (movetick p bound m addnoise s) =
     (fst (snd s), if addnoise then snd (snd s) + 2 else snd (snd s))"
  by (simp add: movetick_def movetick_axis_rng)

lemma movetick_key: "key (fst (movetick p bounds m addnoise (b, g))) = key (moved p bounds b)"
proof -
  have "pos (fst (movetick p bounds m addnoise (b, g))) = pos (moved p bounds b)"
    unfolding moved_def by (rule vec2_eqI) (simp only: movetick_pos fst_conv)
  then show ?thesis
    by (simp add: key_def moved_def movetick_idnum)
qed

lemma movetick_quiet:
  assumes "noise p = 0"
  shows "fst (movetick p bounds m addnoise (b, g)) = moved p bounds b"
proof -
  have "heading (fst (movetick p bounds m addnoise (b, g))) = heading (moved p bounds b)"
    unfolding moved_def
    by (rule vec2_eqI) (simp only: movetick_heading fst_conv snd_conv, simp add: assms)
  moreover have "key (fst (movetick p bounds m addnoise (b, g))) = key (moved p bounds b)"
    by (rule movetick_key)
  ultimately show ?thesis
    by (simp add: key_def)
qed

lemma pass2_key: "map key (fst (pass2 p bounds boidarr g)) = map (\<lambda>b. key (moved p bounds b)) boidarr"
proof (induction boidarr arbitrary: g)
  case Nil
  show ?case by simp
next
  case (Cons b boidarr)
  show ?case
    by (simp add: case_prod_unfold Let_def movetick_key Cons.IH)
qed

lemma pass2_quiet:
  assumes "noise p = 0"
  shows "fst (pass2 p bounds boidarr g) = map (moved p bounds) boidarr"
proof (induction boidarr arbitrary: g)
  case Nil
  show ?case by simp
next
  case (Cons b boidarr)
  show ?case
    by (simp add: case_prod_unfold Let_def movetick_quiet [OF assms] Cons.IH)
qed

text \<open>
  Claim C1, as amended. Pass 1 never raises and leaves every position and identifier as
  it was, so every neighbor query of a tick sees the positions from before the tick. The
  headings, however, are read in place: heading adjustment uses the neighbors' headings
  as they stand, already adjusted for the agents earlier in the iteration order, and pass
  2 takes its noise draws in iteration order. When the alignment weight is zero, so that
  neighbor headings do not enter the result, every permutation of the agent collection
  gives the same final position for each agent identifier, whatever the generator state;
  when the noise amount is zero as well, it gives the same final agents, heading included.
\<close>

theorem tick_order:
  "(\<exists>res. pass1 p [] boidarr = Inr res
       \<and> map pos res = map pos boidarr \<and> map idnum res = map idnum boidarr)
   \<and> (mset boidarr' = mset boidarr \<and> align p = 0 \<longrightarrow>
       (\<exists>res res' g1 g1'.
           update p bounds boidarr g = Inr (res, g1)
         \<and> update p bounds boidarr' g' = Inr (res', g1')
         \<and> mset (map (\<lambda>b. (idnum b, pos b)) res') = mset (map (\<lambda>b. (idnum b, pos b)) res)
         \<and> (noise p = 0 \<longrightarrow> mset res' = mset res)))"
proof (intro conjI impI)
  obtain res where r: "pass1 p [] boidarr = Inr res" and k: "map key res = map key boidarr"
    using pass1_total [of p "[]" boidarr] by auto
  have "map (fst \<circ> key) res = map (fst \<circ> key) boidarr" "map (snd \<circ> key) res = map (snd \<circ> key) boidarr"
    using k by (metis map_map)+
  moreover have "fst \<circ> key = idnum" "snd \<circ> key = pos"
    by (auto simp: key_def)
  ultimately show "\<exists>res. pass1 p [] boidarr = Inr res
       \<and> map pos res = map pos boidarr \<and> map idnum res = map idnum boidarr"
    using r by auto
next
  assume a: "mset boidarr' = mset boidarr \<and> align p = 0"
  then obtain r1 r1' where r: "pass1 p [] boidarr = Inr r1" and r': "pass1 p [] boidarr' = Inr r1'"
    and m: "mset r1' = mset r1"
    using pass1_permuted [of p boidarr' boidarr] by blast
  let ?res = "fst (pass2 p bounds r1 g)" and ?res' = "fst (pass2 p bounds r1' g')"
  have u: "update p bounds boidarr g = Inr (?res, snd (pass2 p bounds r1 g))"
          "update p bounds boidarr' g' = Inr (?res', snd (pass2 p bounds r1' g'))"
    by (simp_all add: update_def r r')
  have "mset (map key ?res') = mset (map key ?res)"
    unfolding pass2_key using m by (metis mset_map)
  then have k: "mset (map (\<lambda>b. (idnum b, pos b)) ?res') = mset (map (\<lambda>b. (idnum b, pos b)) ?res)"
    by (simp add: key_def [abs_def])
  have q: "mset ?res' = mset ?res" if "noise p = 0"
    unfolding pass2_quiet [OF that] using m by (metis mset_map)
  from u k q show "\<exists>res res' g1 g1'.
           update p bounds boidarr g = Inr (res, g1)
         \<and> update p bounds boidarr' g' = Inr (res', g1')
         \<and> mset (map (\<lambda>b. (idnum b, pos b)) res') = mset (map (\<lambda>b. (idnum b, pos b)) res)
         \<and> (noise p = 0 \<longrightarrow> mset res' = mset res)"
    by blast
qed

lemma adjustheading_single:
  assumes "sqrt_defined p self b"
  shows "adjustheading p self [b] =
     Inr (normalize_heading p (self\<lparr>heading :=
       (vget (heading self) Ax0 - separate p * crowd_term p self b Ax0
          + cohere p * (vget (pos b) Ax0 - vget (pos self) Ax0) + align p * vget (heading b) Ax0,
        vget (heading self) Ax1 - separate p * crowd_term p self b Ax1
          + cohere p * (vget (pos b) Ax1 - vget (pos self) Ax1) + align p * vget (heading b) Ax1)\<rparr>))"
  using assms
  by (simp add: adjustheading_def adjust_rules_closed rule_heading_def mean_position_def
      mean_heading_def)

text \<open>
  Claim C1 as stated fails. Two agents within range of each other with opposite headings,
  alignment weight 1, the other weights 0 and no noise: the agent processed first reads
  the other's old heading and stops; the agent processed second reads the first one's
  new heading, which is zero, and keeps its own. Swapping the two in the collection swaps
  which of them stops.
\<close>

theorem tick_depends_on_order:
  "mset [boid_d, boid_a] = mset [boid_a, boid_d]
   \<and> update params_align 1000 [boid_a, boid_d] (constant_draws 0) =
       Inr ([boid_a\<lparr>heading := (0, 0)\<rparr>, boid_d\<lparr>pos := (0, 0)\<rparr>], (fst (constant_draws 0), 4))
   \<and> update params_align 1000 [boid_d, boid_a] (constant_draws 0) =
       Inr ([boid_d\<lparr>heading := (0, 0)\<rparr>, boid_a\<lparr>pos := (1, 0)\<rparr>], (fst (constant_draws 0), 4))
   \<and> boid_a\<lparr>heading := (0, 0)\<rparr> \<noteq> boid_a\<lparr>pos := (1, 0)\<rparr>"
proof -
  let ?a0 = "boid_a\<lparr>heading := (0, 0)\<rparr>" and ?d0 = "boid_d\<lparr>heading := (0, 0)\<rparr>"
  have s: "senserange params_align = 50" "separate params_align = 0" "cohere params_align = 0"
      "align params_align = 1" "velocity params_align = 1" "noise params_align = 0"
      "\<not> bounce params_align" "root_sep params_align"
    by (simp_all add: params_align_def)
  have d: "distance boid_a boid_d = 1" "distance boid_d boid_a = 1"
      "distance boid_a boid_a = 0" "distance boid_d boid_d = 0"
      "distance boid_d ?a0 = 1" "distance boid_a ?d0 = 1"
    by (simp_all add: distance_def boid_a_def boid_d_def)
  have i: "idnum boid_a = 0" "idnum boid_d = 1" by (simp_all add: boid_a_def boid_d_def)
  have f1: "findnear params_align boid_a [boid_a, boid_d] = [boid_d]"
    by (simp add: findnear_filter d s i)
  have f2: "findnear params_align boid_d [?a0, boid_d] = [?a0]"
    by (simp add: findnear_filter d s i)
  have f3: "findnear params_align boid_d [boid_d, boid_a] = [boid_a]"
    by (simp add: findnear_filter d s i)
  have f4: "findnear params_align boid_a [?d0, boid_a] = [?d0]"
    by (simp add: findnear_filter d s i)
  have r: "sqrt_defined params_align boid_a boid_d" "sqrt_defined params_align boid_d ?a0"
      "sqrt_defined params_align boid_d boid_a" "sqrt_defined params_align boid_a ?d0"
    by (simp_all add: sqrt_defined_def s boid_a_def boid_d_def)
  have a1: "adjustheading params_align boid_a [boid_d] = Inr ?a0"
    by (simp add: adjustheading_single [OF r(1)] s)
      (simp add: normalize_heading_def magnitude_def boid_a_def boid_d_def)
  have a2: "adjustheading params_align boid_d [?a0] = Inr boid_d"
    by (simp add: adjustheading_single [OF r(2)] s)
      (simp add: normalize_heading_def magnitude_def boid_a_def boid_d_def s)
  have a3: "adjustheading params_align boid_d [boid_a] = Inr ?d0"
    by (simp add: adjustheading_single [OF r(3)] s)
      (simp add: normalize_heading_def magnitude_def boid_a_def boid_d_def)
  have a4: "adjustheading params_align boid_a [?d0] = Inr boid_a"
    by (simp add: adjustheading_single [OF r(4)] s)
      (simp add: normalize_heading_def magnitude_def boid_a_def boid_d_def s)
  have p1: "pass1 params_align [] [boid_a, boid_d] = Inr [?a0, boid_d]"
    by (simp add: f1 a1 f2 a2 del: findnear.simps)
  have p2: "pass1 params_align [] [boid_d, boid_a] = Inr [?d0, boid_a]"
    by (simp add: f3 a3 f4 a4 del: findnear.simps)
  have q: "fst (movetick params_align 1000 mm True (b, g)) = moved params_align 1000 b"
    for mm b g
    by (rule movetick_quiet) (simp add: s)
  have mv: "moved params_align 1000 ?a0 = ?a0" "moved params_align 1000 boid_d = boid_d\<lparr>pos := (0, 0)\<rparr>"
      "moved params_align 1000 ?d0 = ?d0" "moved params_align 1000 boid_a = boid_a\<lparr>pos := (1, 0)\<rparr>"
    by (simp_all add: moved_def movetick_def movetick_axis_def boundary_def add_noise_def
        Let_def s boid_a_def boid_d_def)
  have u1: "update params_align 1000 [boid_a, boid_d] (constant_draws 0) =
       Inr ([?a0, boid_d\<lparr>pos := (0, 0)\<rparr>], (fst (constant_draws 0), 4))"
    unfolding update_def p1
    by (simp add: constant_draws_def case_prod_unfold q mv movetick_rng)
  have u2: "update params_align 1000 [boid_d, boid_a] (constant_draws 0) =
       Inr ([?d0, boid_a\<lparr>pos := (1, 0)\<rparr>], (fst (constant_draws 0), 4))"
    unfolding update_def p2
    by (simp add: constant_draws_def case_prod_unfold q mv movetick_rng)
  have n: "?a0 \<noteq> boid_a\<lparr>pos := (1, 0)\<rparr>"
    by (simp add: boid_a_def)
  from u1 u2 n show ?thesis by simp
qed

theorem tick_order_witness:
  "mset [boid_d, boid_a] = mset [boid_a, boid_d] \<and> align params_quiet = 0
   \<and> noise params_quiet = 0
   \<and> (\<exists>res res' g1 g1'.
         update params_quiet 1000 [boid_a, boid_d] (constant_draws 0) = Inr (res, g1)
       \<and> update params_quiet 1000 [boid_d, boid_a] (constant_draws 0.5) = Inr (res', g1')
       \<and> mset res' = mset res)"
proof -
  have h: "mset [boid_d, boid_a] = mset [boid_a, boid_d] \<and> align params_quiet = 0"
    by (simp add: params_quiet_def)
  have n: "noise params_quiet = 0"
    by (simp add: params_quiet_def)
  from tick_order [of params_quiet "[boid_a, boid_d]" "[boid_d, boid_a]" 1000
      "constant_draws 0" "constant_draws 0.5"] h n
  show ?thesis by blast
qed

end
